theory Spec2Isabelle
  imports Main "HOL-Library.Sublist"
begin

section \<open>Strings and the built-in methods the gallery calls\<close>

text \<open>
  The component \<^verbatim>\<open>App\<close> of \<^verbatim>\<open>src/App.jsx\<close> works on JavaScript strings. They are modelled
  as \<^typ>\<open>string\<close>, each \<^typ>\<open>char\<close> read as the code point of the same number
  (U+0000 to U+00FF, one UTF-16 code unit each). On these code points
  \<^verbatim>\<open>String.prototype.trim\<close> removes TAB, LF, VT, FF, CR, SPACE and NO-BREAK SPACE from both
  ends, and \<^verbatim>\<open>String.prototype.toLowerCase\<close> maps A to Z and the capital letters
  U+00C0 to U+00DE (the multiplication sign U+00D7 apart) to the letter 32 places further.
\<close>

definition isWhiteSpace :: "char \<Rightarrow> bool" where
  "isWhiteSpace c =
     (let n = of_char c :: nat in (9 \<le> n \<and> n \<le> 13) \<or> n = 32 \<or> n = 160)"

definition trim :: "string \<Rightarrow> string" where
  "trim s = rev (dropWhile isWhiteSpace (rev (dropWhile isWhiteSpace s)))"

definition lowerChar :: "char \<Rightarrow> char" where
  "lowerChar c =
     (let n = of_char c :: nat in
      if (65 \<le> n \<and> n \<le> 90) \<or> (192 \<le> n \<and> n \<le> 222 \<and> n \<noteq> 215)
      then char_of (n + 32) else c)"

definition toLowerCase :: "string \<Rightarrow> string" where
  "toLowerCase s = map lowerChar s"

text \<open>
  \<^verbatim>\<open>s.includes(q)\<close> on strings looks for a position of \<^verbatim>\<open>s\<close> at which \<^verbatim>\<open>q\<close> starts;
  the empty \<^verbatim>\<open>q\<close> is found in every string.
\<close>

fun includes_str :: "string \<Rightarrow> string \<Rightarrow> bool" where
  "includes_str [] q = (q = [])"
| "includes_str (c # s) q = (prefix q (c # s) \<or> includes_str s q)"

text \<open>\<^verbatim>\<open>xs.includes(x)\<close> on arrays scans for an equal element.\<close>

fun includes_arr :: "'a list \<Rightarrow> 'a \<Rightarrow> bool" where
  "includes_arr [] x = False"
| "includes_arr (y # ys) x = (y = x \<or> includes_arr ys x)"

text \<open>
  \<^verbatim>\<open>s.split(',')\<close>: the pieces between the separators, the empty ones included; the
  empty string splits into one empty piece.
\<close>

fun split_on :: "char \<Rightarrow> string \<Rightarrow> string list" where
  "split_on sep [] = [[]]"
| "split_on sep (c # cs) =
     (if c = sep then [] # split_on sep cs
      else (case split_on sep cs of
              [] \<Rightarrow> [[c]]
            | t # ts \<Rightarrow> (c # t) # ts))"

text \<open>
  A \<^verbatim>\<open>Set\<close> keeps its elements in insertion order and \<^verbatim>\<open>add\<close> of an element it holds
  changes nothing; it is modelled by the list \<^verbatim>\<open>Array.from\<close> returns.
\<close>

definition set_add :: "'a list \<Rightarrow> 'a \<Rightarrow> 'a list" where
  "set_add t x = (if x \<in> set t then t else t @ [x])"


section \<open>Photos and the two derived views\<close>

text \<open>
  A field of a fetched object may be absent (\<^verbatim>\<open>undefined\<close> when read) or \<^verbatim>\<open>null\<close>.
  The code guards the reads of \<^verbatim>\<open>p.tags\<close> and \<^verbatim>\<open>p.description\<close> with \<^verbatim>\<open>||\<close> and reads
  \<^verbatim>\<open>p.title\<close> unguarded, so \<open>p_title\<close> is a string (the data model requires it) and
  the other two fields may be missing.
\<close>

datatype 'a js_opt = Undefined | Null | Value 'a

record photo =
  p_id :: string
  p_title :: string
  p_description :: "string js_opt"
  p_image_url :: string
  p_tags :: "string list js_opt"
  p_featured :: bool

text \<open>\<^verbatim>\<open>p.tags || []\<close>: an array, even an empty one, is truthy.\<close>

fun tags_or_empty :: "string list js_opt \<Rightarrow> string list" where
  "tags_or_empty (Value ts) = ts"
| "tags_or_empty Undefined = []"
| "tags_or_empty Null = []"

text \<open>\<^verbatim>\<open>p.description || ''\<close>: the empty string is falsy and is replaced by itself.\<close>

fun description_or_empty :: "string js_opt \<Rightarrow> string" where
  "description_or_empty (Value d) = (if d = [] then [] else d)"
| "description_or_empty Undefined = []"
| "description_or_empty Null = []"

text \<open>
  \<^verbatim>\<open>allTags\<close> (lines 55 to 59): both \<^verbatim>\<open>forEach\<close> loops are folds over the set \<^verbatim>\<open>t\<close>.
\<close>

definition allTags :: "photo list \<Rightarrow> string list" where
  "allTags photos =
     (let t = fold (\<lambda>p t. fold (\<lambda>tag t'. set_add t' tag) (tags_or_empty (p_tags p)) t) photos []
      in ''All'' # t)"

text \<open>\<^verbatim>\<open>filtered\<close> (lines 61 to 68): the callback of \<^verbatim>\<open>photos.filter\<close>, then the filter.\<close>

definition keeps :: "string \<Rightarrow> string \<Rightarrow> photo \<Rightarrow> bool" where
  "keeps selectedTag query p =
     (let tagMatch = (selectedTag = ''All'' \<or> includes_arr (tags_or_empty (p_tags p)) selectedTag);
          q = toLowerCase (trim query);
          qMatch = (q = [] \<or> includes_str (toLowerCase (p_title p)) q
                    \<or> includes_str (toLowerCase (description_or_empty (p_description p))) q)
      in tagMatch \<and> qMatch)"

definition filtered :: "photo list \<Rightarrow> string \<Rightarrow> string \<Rightarrow> photo list" where
  "filtered photos selectedTag query = filter (keeps selectedTag query) photos"

text \<open>The tags of a photo list in the order the scan meets them.\<close>

definition scanned_tags :: "photo list \<Rightarrow> string list" where
  "scanned_tags photos = concat (map (\<lambda>p. tags_or_empty (p_tags p)) photos)"


section \<open>The component's state and its two requests\<close>

text \<open>The state variables of \<^verbatim>\<open>App\<close> (lines 19 to 31), one field per \<^verbatim>\<open>useState\<close>.\<close>

record state =
  loading :: bool
  photos :: "photo list"
  error :: string
  title :: string
  description :: string
  imageUrl :: string
  tags :: string
  featured :: bool
  selectedTag :: string
  showFeaturedOnly :: bool
  query :: string

text \<open>
  A handler runs against the state of the render that created it: every state variable it
  reads keeps that render's value however many setters it has called. So a handler is a
  function from that state to the list of effects it performs, in order: calls of the
  setters and calls of \<^verbatim>\<open>fetch\<close>. The answer to each \<^verbatim>\<open>fetch\<close> is an argument.
\<close>

datatype json = JString string | JBool bool | JArray "json list"

datatype request =
    GET string
  | POST string "(string \<times> string) list" "(string \<times> json) list"

datatype action =
    SetLoading bool
  | SetPhotos "photo list"
  | SetError string
  | SetTitle string
  | SetDescription string
  | SetImageUrl string
  | SetTags string
  | SetFeatured bool
  | SetShowFeaturedOnly bool
  | Fetch request

fun apply_action :: "action \<Rightarrow> state \<Rightarrow> state" where
  "apply_action (SetLoading b) st = st\<lparr>loading := b\<rparr>"
| "apply_action (SetPhotos ps) st = st\<lparr>photos := ps\<rparr>"
| "apply_action (SetError e) st = st\<lparr>error := e\<rparr>"
| "apply_action (SetTitle s) st = st\<lparr>title := s\<rparr>"
| "apply_action (SetDescription s) st = st\<lparr>description := s\<rparr>"
| "apply_action (SetImageUrl s) st = st\<lparr>imageUrl := s\<rparr>"
| "apply_action (SetTags s) st = st\<lparr>tags := s\<rparr>"
| "apply_action (SetFeatured b) st = st\<lparr>featured := b\<rparr>"
| "apply_action (SetShowFeaturedOnly b) st = st\<lparr>showFeaturedOnly := b\<rparr>"
| "apply_action (Fetch r) st = st"

definition run :: "state \<Rightarrow> action list \<Rightarrow> state" where
  "run st acts = fold apply_action acts st"

fun requests :: "action list \<Rightarrow> request list" where
  "requests [] = []"
| "requests (Fetch r # acts) = r # requests acts"
| "requests (a # acts) = requests acts"

text \<open>
  What \<^verbatim>\<open>await fetch(...)\<close> gives: the promise rejects with an error that has a message, or
  resolves to a response with a status and a body. \<^verbatim>\<open>res.ok\<close> holds for the statuses 200
  to 299.
\<close>

datatype 'b fetch_result = NetworkError string | HttpResponse nat 'b

definition ok :: "nat \<Rightarrow> bool" where
  "ok status = (200 \<le> status \<and> status \<le> 299)"

text \<open>
  \<^verbatim>\<open>URLSearchParams\<close>: the pairs in order. \<^verbatim>\<open>set\<close> overwrites the first pair of the name and
  drops the others, or appends; \<^verbatim>\<open>toString\<close> joins \<^verbatim>\<open>name=value\<close> with \<^verbatim>\<open>&\<close>, each part
  form-urlencoded (letters, digits and \<^verbatim>\<open>*-._\<close> stay, a space becomes \<^verbatim>\<open>+\<close>, any other
  code point is the \<^verbatim>\<open>%XX\<close> of its UTF-8 bytes).
\<close>

fun params_set :: "(string \<times> string) list \<Rightarrow> string \<Rightarrow> string \<Rightarrow> (string \<times> string) list" where
  "params_set [] k v = [(k, v)]"
| "params_set ((k', v') # ps) k v =
     (if k' = k then (k, v) # filter (\<lambda>kv. fst kv \<noteq> k) ps else (k', v') # params_set ps k v)"

definition hexDigit :: "nat \<Rightarrow> char" where
  "hexDigit d = (if d < 10 then char_of (48 + d) else char_of (55 + d))"

definition percent :: "nat \<Rightarrow> string" where
  "percent b = [CHR ''%'', hexDigit (b div 16), hexDigit (b mod 16)]"

definition urlencodeChar :: "char \<Rightarrow> string" where
  "urlencodeChar c =
     (let n = of_char c :: nat in
      if n = 32 then ''+''
      else if (48 \<le> n \<and> n \<le> 57) \<or> (65 \<le> n \<and> n \<le> 90) \<or> (97 \<le> n \<and> n \<le> 122)
              \<or> n = 42 \<or> n = 45 \<or> n = 46 \<or> n = 95 then [c]
      else if n < 128 then percent n
      else percent (192 + n div 64) @ percent (128 + n mod 64))"

definition urlencode :: "string \<Rightarrow> string" where
  "urlencode s = concat (map urlencodeChar s)"

fun params_toString :: "(string \<times> string) list \<Rightarrow> string" where
  "params_toString [] = []"
| "params_toString [(k, v)] = urlencode k @ ''='' @ urlencode v"
| "params_toString ((k, v) # ps) = urlencode k @ ''='' @ urlencode v @ ''&'' @ params_toString ps"

text \<open>Lines 37 and 38: the parameters of the list request.\<close>

definition list_params :: "state \<Rightarrow> (string \<times> string) list" where
  "list_params st = (if showFeaturedOnly st then params_set [] ''featured'' ''true'' else [])"

definition list_url :: "string \<Rightarrow> state \<Rightarrow> string" where
  "list_url baseUrl st = baseUrl @ ''/api/photos?'' @ params_toString (list_params st)"

text \<open>
  \<^verbatim>\<open>fetchPhotos\<close> (lines 33 to 48). The body of a response is what \<^verbatim>\<open>res.json()\<close> gives:
  \<open>Inl\<close> the message of the error it rejects with, \<open>Inr\<close> the photos. The \<^verbatim>\<open>try\<close> block
  gives the effects it got to and the message of the error thrown, if one was; \<^verbatim>\<open>catch\<close>
  and \<^verbatim>\<open>finally\<close> follow.
\<close>

definition fetchPhotos_try ::
  "string \<Rightarrow> state \<Rightarrow> (string + photo list) fetch_result \<Rightarrow> action list \<times> string option" where
  "fetchPhotos_try baseUrl st res =
     (let begun = [SetLoading True, SetError [], Fetch (GET (list_url baseUrl st))] in
      case res of
        NetworkError msg \<Rightarrow> (begun, Some msg)
      | HttpResponse status body \<Rightarrow>
          if \<not> ok status then (begun, Some ''Failed to load photos'')
          else (case body of
                  Inl msg \<Rightarrow> (begun, Some msg)
                | Inr data \<Rightarrow> (begun @ [SetPhotos data], None)))"

definition fetchPhotos ::
  "string \<Rightarrow> state \<Rightarrow> (string + photo list) fetch_result \<Rightarrow> action list" where
  "fetchPhotos baseUrl st res =
     (case fetchPhotos_try baseUrl st res of
        (done, thrown) \<Rightarrow>
          done @ (case thrown of Some msg \<Rightarrow> [SetError msg] | None \<Rightarrow> []) @ [SetLoading False])"

text \<open>
  \<^verbatim>\<open>handleAdd\<close> (lines 70 to 101). The payload is the object literal of lines 75 to 84, a
  property whose value is \<^verbatim>\<open>undefined\<close> being \<open>None\<close>; \<^verbatim>\<open>JSON.stringify\<close> leaves such a
  property out. The body of the request is modelled by the object the text denotes.
\<close>

definition payload_tags :: "string \<Rightarrow> string list" where
  "payload_tags s = filter (\<lambda>t. t \<noteq> []) (map trim (split_on CHR '','' s))"

definition payload :: "state \<Rightarrow> (string \<times> json option) list" where
  "payload st =
     [(''title'', Some (JString (title st))),
      (''description'', if description st = [] then None else Some (JString (description st))),
      (''image_url'', Some (JString (imageUrl st))),
      (''tags'', Some (JArray (map JString (payload_tags (tags st))))),
      (''featured'', Some (JBool (featured st)))]"

fun JSON_stringify :: "(string \<times> json option) list \<Rightarrow> (string \<times> json) list" where
  "JSON_stringify [] = []"
| "JSON_stringify ((k, None) # kvs) = JSON_stringify kvs"
| "JSON_stringify ((k, Some v) # kvs) = (k, v) # JSON_stringify kvs"

definition create_request :: "string \<Rightarrow> state \<Rightarrow> request" where
  "create_request baseUrl st =
     POST (baseUrl @ ''/api/photos'') [(''Content-Type'', ''application/json'')]
       (JSON_stringify (payload st))"

definition handleAdd_try ::
  "string \<Rightarrow> state \<Rightarrow> 'b fetch_result \<Rightarrow> (string + photo list) fetch_result
     \<Rightarrow> action list \<times> string option" where
  "handleAdd_try baseUrl st res list_res =
     (if title st = [] \<or> imageUrl st = [] then ([], Some ''Title and Image URL are required'')
      else
        let sent = [Fetch (create_request baseUrl st)] in
        case res of
          NetworkError msg \<Rightarrow> (sent, Some msg)
        | HttpResponse status body \<Rightarrow>
            if \<not> ok status then (sent, Some ''Failed to save photo'')
            else (sent @ [SetTitle [], SetDescription [], SetImageUrl [], SetTags [],
                          SetFeatured False] @ fetchPhotos baseUrl st list_res, None))"

definition handleAdd ::
  "string \<Rightarrow> state \<Rightarrow> 'b fetch_result \<Rightarrow> (string + photo list) fetch_result \<Rightarrow> action list" where
  "handleAdd baseUrl st res list_res =
     (case handleAdd_try baseUrl st res list_res of
        (done, thrown) \<Rightarrow>
          [SetError []] @ done @ (case thrown of Some msg \<Rightarrow> [SetError msg] | None \<Rightarrow> []))"







section \<open>Example values\<close>

text \<open>Three photos as the backend may return them; the third has no tags and no description.\<close>

definition sunset :: photo where
  "sunset = \<lparr>p_id = ''1'', p_title = ''Sunset'', p_description = Undefined,
     p_image_url = ''http://x/1.jpg'', p_tags = Value [''beach'', ''travel''], p_featured = False\<rparr>"

definition cabin :: photo where
  "cabin = \<lparr>p_id = ''2'', p_title = ''Cabin'', p_description = Value ''By the Lake'',
     p_image_url = ''http://x/2.jpg'', p_tags = Value [''travel''], p_featured = True\<rparr>"

definition untagged :: photo where
  "untagged = \<lparr>p_id = ''3'', p_title = ''Harbour'', p_description = Null,
     p_image_url = ''http://x/3.jpg'', p_tags = Null, p_featured = False\<rparr>"

text \<open>The state of the first render: the arguments of the \<^verbatim>\<open>useState\<close> calls.\<close>

definition initial_state :: state where
  "initial_state =
     \<lparr>loading = False, photos = [], error = [], title = [], description = [], imageUrl = [],
      tags = [], featured = False, selectedTag = ''All'', showFeaturedOnly = False, query = []\<rparr>"




section \<open>The built-in methods meet their descriptions\<close>


lemma includes_arr_iff: "includes_arr xs x \<longleftrightarrow> x \<in> set xs"
  by (induction xs) auto

lemma includes_str_iff: "includes_str s q \<longleftrightarrow> sublist q s"
  by (induction s) (auto simp: sublist_Cons_right)

lemma fold_set_add_set: "set (fold (\<lambda>tag t'. set_add t' tag) xs t) = set t \<union> set xs"
  by (induction xs arbitrary: t) (auto simp: set_add_def)

lemma fold_set_add_distinct: "distinct t \<Longrightarrow> distinct (fold (\<lambda>tag t'. set_add t' tag) xs t)"
  by (induction xs arbitrary: t) (auto simp: set_add_def)

lemma fold_set_add_prefix: "prefix t (fold (\<lambda>tag t'. set_add t' tag) xs t)"
proof (induction xs arbitrary: t)
  case Nil
  show ?case by simp
next
  case (Cons x xs)
  have "prefix t (set_add t x)" by (simp add: set_add_def)
  also have "prefix (set_add t x) (fold (\<lambda>tag t'. set_add t' tag) xs (set_add t x))"
    by (rule Cons.IH)
  finally show ?case by simp
qed

lemma allTags_scan:
  "fold (\<lambda>p t. fold (\<lambda>tag t'. set_add t' tag) (tags_or_empty (p_tags p)) t) ps t
     = fold (\<lambda>tag t'. set_add t' tag) (scanned_tags ps) t"
  by (induction ps arbitrary: t) (auto simp: scanned_tags_def)

lemma takeWhile_fresh: "x \<notin> set m \<Longrightarrow> takeWhile (\<lambda>y. y \<noteq> x) (m @ x # zs) = m"
  by (induction m) auto

lemma fold_set_add_before:
  assumes "x \<notin> set t" "x \<notin> set us"
  shows "takeWhile (\<lambda>y. y \<noteq> x) (fold (\<lambda>tag t'. set_add t' tag) (us @ x # vs) t)
           = fold (\<lambda>tag t'. set_add t' tag) us t"
proof -
  let ?f = "\<lambda>tag t'. set_add t' tag"
  let ?m = "fold ?f us t"
  have nx: "x \<notin> set ?m" using assms by (simp add: fold_set_add_set)
  then have "set_add ?m x = ?m @ [x]" by (simp add: set_add_def)
  then have "fold ?f (us @ x # vs) t = fold ?f vs (?m @ [x])" by simp
  moreover obtain zs where "fold ?f vs (?m @ [x]) = (?m @ [x]) @ zs"
    using fold_set_add_prefix[of "?m @ [x]" vs] by (auto simp: prefix_def)
  ultimately have "fold ?f (us @ x # vs) t = ?m @ x # zs" by simp
  then show ?thesis using nx by (simp add: takeWhile_fresh)
qed

lemma allTags_tl: "tl (allTags ps) = fold (\<lambda>tag t'. set_add t' tag) (scanned_tags ps) []"
  by (simp add: allTags_def allTags_scan)

lemma split_on_not_Nil: "split_on sep s \<noteq> []"
  by (induction s) (auto split: list.splits)

lemma split_on_join: "concat (map ((#) sep) (split_on sep s)) = sep # s"
  using split_on_not_Nil [of sep]
  by (induction s) (auto split: list.splits)

lemma split_on_no_sep: "t \<in> set (split_on sep s) \<Longrightarrow> sep \<notin> set t"
  by (induction s arbitrary: t) (auto split: list.splits if_splits)

lemma split_on_length: "length (split_on sep s) = Suc (count_list s sep)"
  by (induction s) (auto split: list.splits)

lemma last_dropWhile: "dropWhile P xs \<noteq> [] \<Longrightarrow> last (dropWhile P xs) = last xs"
  by (induction xs) auto

lemma trim_sublist: "sublist (trim s) s"
proof -
  have "sublist (trim s) (dropWhile isWhiteSpace s)"
    unfolding trim_def sublist_rev_left by (rule sublist_dropWhile)
  also have "sublist (dropWhile isWhiteSpace s) s"
    by (rule sublist_dropWhile)
  finally show ?thesis .
qed

lemma trim_edges:
  assumes "trim s \<noteq> []"
  shows "\<not> isWhiteSpace (hd (trim s)) \<and> \<not> isWhiteSpace (last (trim s))"
proof -
  let ?d = "dropWhile isWhiteSpace s"
  let ?e = "dropWhile isWhiteSpace (rev ?d)"
  have e: "?e \<noteq> []" using assms by (simp add: trim_def)
  then have d: "?d \<noteq> []" by (cases "?d") simp_all
  have "hd (trim s) = last ?e" using e by (simp add: trim_def hd_rev)
  also have "\<dots> = last (rev ?d)" using e by (rule last_dropWhile)
  also have "\<dots> = hd ?d" using d by (simp add: last_rev)
  finally have "\<not> isWhiteSpace (hd (trim s))" using d by (simp add: hd_dropWhile)
  moreover have "last (trim s) = hd ?e" using e by (simp add: trim_def last_rev)
  then have "\<not> isWhiteSpace (last (trim s))" using e by (simp add: hd_dropWhile)
  ultimately show ?thesis by simp
qed

lemma dropWhile_hd: "xs \<noteq> [] \<Longrightarrow> \<not> P (hd xs) \<Longrightarrow> dropWhile P xs = xs"
  by (cases xs) simp_all

lemma trim_idem: "trim (trim s) = trim s"
proof (cases "trim s = []")
  case True
  have "trim [] = []" by (simp add: trim_def)
  with True show ?thesis by simp
next
  case False
  from trim_edges [OF False] False
  have "dropWhile isWhiteSpace (trim s) = trim s"
    and "dropWhile isWhiteSpace (rev (trim s)) = rev (trim s)"
    by (simp_all add: dropWhile_hd hd_rev)
  then show ?thesis by (simp add: trim_def [of "trim s"])
qed


section \<open>The derived views\<close>

text \<open>
  Claim C2. The tag vocabulary is \<^verbatim>\<open>"All"\<close> followed by the distinct tags of the list, each
  once, in first-seen order: the tail has no repetition, holds exactly the scanned tags,
  and the tags standing before a tag \<open>x\<close> in it are exactly those scanned before the first
  occurrence of \<open>x\<close>.
\<close>

theorem allTags_vocabulary:
  "allTags ps = ''All'' # tl (allTags ps)
   \<and> distinct (tl (allTags ps))
   \<and> set (tl (allTags ps)) = set (scanned_tags ps)
   \<and> (\<forall>us x vs. scanned_tags ps = us @ x # vs \<and> x \<notin> set us
        \<longrightarrow> set (takeWhile (\<lambda>y. y \<noteq> x) (tl (allTags ps))) = set us)"
proof -
  have "allTags ps = ''All'' # tl (allTags ps)"
    by (simp add: allTags_def)
  moreover have "distinct (tl (allTags ps))"
    by (simp add: allTags_tl fold_set_add_distinct)
  moreover have "set (tl (allTags ps)) = set (scanned_tags ps)"
    by (simp add: allTags_tl fold_set_add_set)
  moreover have "set (takeWhile (\<lambda>y. y \<noteq> x) (tl (allTags ps))) = set us"
    if "scanned_tags ps = us @ x # vs" "x \<notin> set us" for us x vs
  proof -
    have "takeWhile (\<lambda>y. y \<noteq> x) (tl (allTags ps))
            = fold (\<lambda>tag t'. set_add t' tag) us []"
      unfolding allTags_tl that(1) using that(2) by (intro fold_set_add_before) simp_all
    then show ?thesis by (simp add: fold_set_add_set)
  qed
  ultimately show ?thesis by blast
qed




theorem allTags_vocabulary_witness:
  "scanned_tags [sunset, untagged, cabin] = [''beach''] @ ''travel'' # [''travel'']
   \<and> ''travel'' \<notin> set [''beach'']
   \<and> allTags [sunset, untagged, cabin] = [''All'', ''beach'', ''travel'']
   \<and> set (takeWhile (\<lambda>y. y \<noteq> ''travel'') (tl (allTags [sunset, untagged, cabin]))) = set [''beach'']"
proof -
  have s: "scanned_tags [sunset, untagged, cabin] = [''beach''] @ ''travel'' # [''travel'']"
    by (simp add: scanned_tags_def sunset_def cabin_def untagged_def)
  have n: "''travel'' \<notin> set [''beach'']" by simp
  have a: "allTags [sunset, untagged, cabin] = [''All'', ''beach'', ''travel'']"
    by (simp add: allTags_def set_add_def sunset_def cabin_def untagged_def)
  from allTags_vocabulary [of "[sunset, untagged, cabin]"] s n
  have "set (takeWhile (\<lambda>y. y \<noteq> ''travel'') (tl (allTags [sunset, untagged, cabin]))) = set [''beach'']"
    by blast
  with s n a show ?thesis by blast
qed

text \<open>
  Claim C1. The filtered view is the photo list filtered, in its order, by: the selected
  tag is \<^verbatim>\<open>"All"\<close> or is among the photo's tags, and the trimmed lower-cased query is
  empty or occurs in the lower-cased title or in the lower-cased description, a missing
  description counting as the empty text.
\<close>

theorem filtered_exact:
  "filtered ps t qry =
     filter (\<lambda>p. (t = ''All'' \<or> t \<in> set (case p_tags p of Value ts \<Rightarrow> ts | _ \<Rightarrow> []))
                \<and> (toLowerCase (trim qry) = []
                    \<or> sublist (toLowerCase (trim qry)) (toLowerCase (p_title p))
                    \<or> sublist (toLowerCase (trim qry))
                         (toLowerCase (case p_description p of Value d \<Rightarrow> d | _ \<Rightarrow> []))))
       ps
   \<and> subseq (filtered ps t qry) ps"
proof -
  have tg: "tags_or_empty x = (case x of Value ts \<Rightarrow> ts | _ \<Rightarrow> [])" for x
    by (cases x) simp_all
  have ds: "description_or_empty x = (case x of Value d \<Rightarrow> d | _ \<Rightarrow> [])" for x
    by (cases x) simp_all
  have k: "keeps t qry = (\<lambda>p.
      (t = ''All'' \<or> t \<in> set (case p_tags p of Value ts \<Rightarrow> ts | _ \<Rightarrow> []))
                \<and> (toLowerCase (trim qry) = []
                    \<or> sublist (toLowerCase (trim qry)) (toLowerCase (p_title p))
                    \<or> sublist (toLowerCase (trim qry))
                         (toLowerCase (case p_description p of Value d \<Rightarrow> d | _ \<Rightarrow> []))))"
    unfolding keeps_def Let_def includes_arr_iff includes_str_iff tg ds by (rule refl)
  show ?thesis
    unfolding filtered_def k by (intro conjI refl subseq_filter_left)
qed

text \<open>
  Claim C10. A photo whose \<^verbatim>\<open>tags\<close> field is missing or \<^verbatim>\<open>null\<close> is read as having no
  tags: it adds nothing to the tag vocabulary, and the filtered view holds it only when the
  selected tag is \<^verbatim>\<open>"All"\<close>. Both views are total functions of the photo list, every
  read of the field going through \<open>tags_or_empty\<close>.
\<close>

theorem missing_tags_total:
  assumes "p_tags p = Undefined \<or> p_tags p = Null"
  shows "tags_or_empty (p_tags p) = []
    \<and> allTags (xs @ p # ys) = allTags (xs @ ys)
    \<and> (p \<in> set (filtered (xs @ p # ys) t qry) \<longleftrightarrow> t = ''All'' \<and> keeps ''All'' qry p)
    \<and> (t \<noteq> ''All'' \<longrightarrow> filtered (xs @ p # ys) t qry = filtered (xs @ ys) t qry)"
proof -
  have e: "tags_or_empty (p_tags p) = []"
    using assms by auto
  have "scanned_tags (xs @ p # ys) = scanned_tags (xs @ ys)"
    by (simp add: scanned_tags_def e)
  then have a: "allTags (xs @ p # ys) = allTags (xs @ ys)"
    unfolding allTags_def allTags_scan by simp
  have k: "keeps t qry p \<longleftrightarrow> t = ''All'' \<and> keeps ''All'' qry p"
    by (auto simp: keeps_def Let_def e)
  have m: "p \<in> set (filtered (xs @ p # ys) t qry) \<longleftrightarrow> t = ''All'' \<and> keeps ''All'' qry p"
    using k by (auto simp: filtered_def)
  have "filtered (xs @ p # ys) t qry = filtered (xs @ ys) t qry" if "t \<noteq> ''All''"
    using k that by (simp add: filtered_def)
  with e a m show ?thesis by blast
qed

theorem missing_tags_total_witness:
  "(p_tags untagged = Undefined \<or> p_tags untagged = Null)
   \<and> tags_or_empty (p_tags untagged) = []
   \<and> allTags ([sunset] @ untagged # [cabin]) = allTags ([sunset] @ [cabin])
   \<and> untagged \<notin> set (filtered ([sunset] @ untagged # [cabin]) ''beach'' [])
   \<and> filtered ([sunset] @ untagged # [cabin]) ''beach'' []
       = filtered ([sunset] @ [cabin]) ''beach'' []"
proof -
  have h: "p_tags untagged = Undefined \<or> p_tags untagged = Null"
    by (simp add: untagged_def)
  have n: "''beach'' \<noteq> ''All''"
    by simp
  from missing_tags_total [OF h, of "[sunset]" "[cabin]" "''beach''" "[]"] h n
  show ?thesis by blast
qed

text \<open>
  The scenario of the specification: two photos tagged \<^verbatim>\<open>beach, travel\<close> and \<^verbatim>\<open>travel\<close>.
\<close>

lemma filtered_scenario:
  "filtered [sunset, cabin] ''travel'' [] = [sunset, cabin]
   \<and> filtered [sunset, cabin] ''beach'' [] = [sunset]
   \<and> filtered [sunset, cabin] ''All'' ''cab'' = [cabin]
   \<and> filtered [sunset, cabin] ''All'' '' LAKE '' = [cabin]"
  by (simp add: filtered_def keeps_def sunset_def cabin_def trim_def isWhiteSpace_def
      toLowerCase_def lowerChar_def char_of_def bit_0)


section \<open>The create request\<close>

lemma payload_tags_tokens:
  assumes "t \<in> set (payload_tags s)"
  shows "t \<noteq> [] \<and> \<not> isWhiteSpace (hd t) \<and> \<not> isWhiteSpace (last t) \<and> CHR '','' \<notin> set t"
proof -
  from assms obtain u where u: "u \<in> set (split_on CHR '','' s)" and t: "t = trim u" "t \<noteq> []"
    by (auto simp: payload_tags_def)
  have "set t \<subseteq> set u" unfolding t by (rule set_mono_sublist) (rule trim_sublist)
  with split_on_no_sep [OF u] have "CHR '','' \<notin> set t" by blast
  with trim_edges [of u] t show ?thesis by simp
qed

text \<open>
  Claim C3. The tags the create request sends are the pieces of the tags input between
  its commas, each trimmed, those empty after trimming dropped, in order and with
  repetitions kept; \<^verbatim>\<open>"travel, , family,  nature ,"\<close> gives \<^verbatim>\<open>travel\<close>, \<^verbatim>\<open>family\<close>, \<^verbatim>\<open>nature\<close>.
\<close>

theorem create_tags_parsed:
  "create_request b st =
     POST (b @ ''/api/photos'') [(''Content-Type'', ''application/json'')] (JSON_stringify (payload st))
   \<and> map_of (JSON_stringify (payload st)) ''tags''
       = Some (JArray (map JString
           (filter (\<lambda>t. t \<noteq> []) (map trim (split_on CHR '','' (tags st))))))
   \<and> payload_tags ''travel, , family,  nature ,'' = [''travel'', ''family'', ''nature'']
   \<and> payload_tags ''sea,sky, sea'' = [''sea'', ''sky'', ''sea'']"
proof -
  have "map_of (JSON_stringify (payload st)) ''tags''
       = Some (JArray (map JString
           (filter (\<lambda>t. t \<noteq> []) (map trim (split_on CHR '','' (tags st))))))"
    by (simp add: payload_def payload_tags_def)
  moreover have "payload_tags ''travel, , family,  nature ,'' = [''travel'', ''family'', ''nature'']"
    by (simp add: payload_tags_def trim_def isWhiteSpace_def)
  moreover have "payload_tags ''sea,sky, sea'' = [''sea'', ''sky'', ''sea'']"
    by (simp add: payload_tags_def trim_def isWhiteSpace_def)
  ultimately show ?thesis
    by (simp add: create_request_def)
qed

text \<open>
  Claim C6. The body of the create request has no \<^verbatim>\<open>description\<close> key when the description
  input is empty; otherwise it carries the input as it is. The keys \<^verbatim>\<open>title\<close>,
  \<^verbatim>\<open>image_url\<close>, \<^verbatim>\<open>tags\<close> and \<^verbatim>\<open>featured\<close> are always there.
\<close>

theorem create_description_omitted:
  "create_request b st =
     POST (b @ ''/api/photos'') [(''Content-Type'', ''application/json'')] (JSON_stringify (payload st))
   \<and> map fst (JSON_stringify (payload st))
       = (if description st = [] then [''title'', ''image_url'', ''tags'', ''featured'']
          else [''title'', ''description'', ''image_url'', ''tags'', ''featured''])
   \<and> map_of (JSON_stringify (payload st)) ''description''
       = (if description st = [] then None else Some (JString (description st)))
   \<and> map_of (JSON_stringify (payload st)) ''title'' = Some (JString (title st))
   \<and> map_of (JSON_stringify (payload st)) ''image_url'' = Some (JString (imageUrl st))
   \<and> map_of (JSON_stringify (payload st)) ''tags''
       = Some (JArray (map JString (payload_tags (tags st))))
   \<and> map_of (JSON_stringify (payload st)) ''featured'' = Some (JBool (featured st))"
  by (simp add: create_request_def payload_def)


section \<open>The list request\<close>


lemma list_params_eq:
  "list_params st = (if showFeaturedOnly st then [(''featured'', ''true'')] else [])"
  by (simp add: list_params_def)


lemma requests_fetchPhotos: "requests (fetchPhotos b st res) = [GET (list_url b st)]"
  by (cases res) (auto simp: fetchPhotos_def fetchPhotos_try_def Let_def split: sum.splits)

text \<open>
  Claim C7. A list fetch issues one \<^verbatim>\<open>GET\<close>; its query string is \<^verbatim>\<open>featured=true\<close> when
  \<^verbatim>\<open>showFeaturedOnly\<close> holds and is empty, no parameter being set, when it does not.
\<close>

theorem list_request_featured:
  "requests (fetchPhotos b st res) = [GET (list_url b st)]
   \<and> list_url b st = b @ ''/api/photos?'' @ params_toString (list_params st)
   \<and> list_params st = (if showFeaturedOnly st then [(''featured'', ''true'')] else [])
   \<and> params_toString (list_params st) = (if showFeaturedOnly st then ''featured=true'' else [])"
proof -
  have "params_toString (list_params st) = (if showFeaturedOnly st then ''featured=true'' else [])"
    by (simp add: list_params_eq urlencode_def urlencodeChar_def)
  then show ?thesis
    by (simp add: requests_fetchPhotos list_params_eq list_url_def)
qed


lemma run_fetchPhotos:
  "run st (fetchPhotos b st0 res) =
     (case res of
        NetworkError msg \<Rightarrow> st\<lparr>error := msg, loading := False\<rparr>
      | HttpResponse status body \<Rightarrow>
          if \<not> ok status then st\<lparr>error := ''Failed to load photos'', loading := False\<rparr>
          else (case body of
                  Inl msg \<Rightarrow> st\<lparr>error := msg, loading := False\<rparr>
                | Inr data \<Rightarrow> st\<lparr>error := [], photos := data, loading := False\<rparr>))"
  by (cases res) (auto simp: fetchPhotos_def fetchPhotos_try_def Let_def run_def split: sum.splits)

text \<open>
  Claim C8, as amended. A list fetch answered with a status outside 200 to 299 leaves the
  message \<^verbatim>\<open>Failed to load photos\<close> in \<^verbatim>\<open>error\<close>, whatever the body, which is not read.
  When \<^verbatim>\<open>fetch\<close> itself rejects, or the body of a response with a status from 200 to
  299 cannot be parsed, \<^verbatim>\<open>error\<close> is the message of that error.
\<close>

theorem fetchPhotos_error_message:
  "error (run st (fetchPhotos b st (HttpResponse status body)))
     = (if ok status then (case body of Inl msg \<Rightarrow> msg | Inr data \<Rightarrow> [])
        else ''Failed to load photos'')
   \<and> error (run st (fetchPhotos b st (NetworkError msg))) = msg"
  by (simp add: run_fetchPhotos split: sum.splits)

text \<open>
  Claim C8 as stated fails: when \<^verbatim>\<open>fetch\<close> rejects, the \<^verbatim>\<open>catch\<close> block shows the
  message of the rejection, not the generic one.
\<close>

theorem fetchPhotos_network_error_counterexample:
  "error (run initial_state
      (fetchPhotos ''http://localhost:8000'' initial_state (NetworkError ''Failed to fetch'')))
     = ''Failed to fetch''
   \<and> error (run initial_state
      (fetchPhotos ''http://localhost:8000'' initial_state (NetworkError ''Failed to fetch'')))
     \<noteq> ''Failed to load photos''"
  by (simp add: run_fetchPhotos)

text \<open>
  Claim C9. A list fetch that fails (\<^verbatim>\<open>fetch\<close> rejects, the status is outside 200 to 299,
  or the body cannot be parsed) changes the state in \<^verbatim>\<open>error\<close>, set to the message, and
  \<^verbatim>\<open>loading\<close>, set to false, only: \<^verbatim>\<open>photos\<close> keeps its value.
\<close>

theorem fetchPhotos_failure_frame:
  "run st (fetchPhotos b st (NetworkError msg)) = st\<lparr>error := msg, loading := False\<rparr>
   \<and> photos (run st (fetchPhotos b st (NetworkError msg))) = photos st
   \<and> (\<not> ok status \<longrightarrow>
        run st (fetchPhotos b st (HttpResponse status body))
          = st\<lparr>error := ''Failed to load photos'', loading := False\<rparr>
        \<and> photos (run st (fetchPhotos b st (HttpResponse status body))) = photos st)
   \<and> (ok status' \<longrightarrow>
        run st (fetchPhotos b st (HttpResponse status' (Inl msg)))
          = st\<lparr>error := msg, loading := False\<rparr>
        \<and> photos (run st (fetchPhotos b st (HttpResponse status' (Inl msg)))) = photos st)"
  by (simp add: run_fetchPhotos)

theorem fetchPhotos_failure_frame_witness:
  "\<not> ok 500 \<and> ok 200
   \<and> run (initial_state\<lparr>photos := [sunset, cabin]\<rparr>)
        (fetchPhotos ''http://localhost:8000'' (initial_state\<lparr>photos := [sunset, cabin]\<rparr>)
           (HttpResponse 500 (Inr [])))
       = initial_state\<lparr>photos := [sunset, cabin], error := ''Failed to load photos''\<rparr>
   \<and> photos (run (initial_state\<lparr>photos := [sunset, cabin]\<rparr>)
        (fetchPhotos ''http://localhost:8000'' (initial_state\<lparr>photos := [sunset, cabin]\<rparr>)
           (HttpResponse 500 (Inr [])))) = [sunset, cabin]
   \<and> run (initial_state\<lparr>photos := [sunset, cabin]\<rparr>)
        (fetchPhotos ''http://localhost:8000'' (initial_state\<lparr>photos := [sunset, cabin]\<rparr>)
           (HttpResponse 200 (Inl ''Unexpected token <'')))
       = initial_state\<lparr>photos := [sunset, cabin], error := ''Unexpected token <''\<rparr>"
proof -
  let ?st = "initial_state\<lparr>photos := [sunset, cabin]\<rparr>"
  have h: "\<not> ok 500" "ok 200"
    by (simp_all add: ok_def)
  note t = fetchPhotos_failure_frame [of ?st "''http://localhost:8000''" "''Unexpected token <''"
      500 "Inr []" 200]
  from t h have r: "run ?st (fetchPhotos ''http://localhost:8000'' ?st (HttpResponse 500 (Inr [])))
      = ?st\<lparr>error := ''Failed to load photos'', loading := False\<rparr>"
    by blast
  from t h have r': "run ?st (fetchPhotos ''http://localhost:8000'' ?st
        (HttpResponse 200 (Inl ''Unexpected token <'')))
      = ?st\<lparr>error := ''Unexpected token <'', loading := False\<rparr>"
    by blast
  have e: "?st\<lparr>error := m, loading := False\<rparr> = initial_state\<lparr>photos := [sunset, cabin], error := m\<rparr>"
    for m
    by (simp add: initial_state_def)
  show ?thesis
    unfolding r r' e using h by simp
qed


section \<open>Submitting the form\<close>

text \<open>
  Claim C4. With an empty title or an empty image URL, submitting the form calls \<^verbatim>\<open>fetch\<close>
  not once and leaves a message, which is not empty, in \<^verbatim>\<open>error\<close>; nothing else changes.
\<close>

theorem handleAdd_validation:
  assumes "title st = [] \<or> imageUrl st = []"
  shows "requests (handleAdd b st res list_res) = []
    \<and> run st (handleAdd b st res list_res) = st\<lparr>error := ''Title and Image URL are required''\<rparr>
    \<and> error (run st (handleAdd b st res list_res)) \<noteq> []"
proof -
  have "handleAdd b st res list_res = [SetError [], SetError ''Title and Image URL are required'']"
    using assms by (simp add: handleAdd_def handleAdd_try_def)
  then show ?thesis by (simp add: run_def)
qed

theorem handleAdd_validation_witness:
  "(title initial_state = [] \<or> imageUrl initial_state = [])
   \<and> requests (handleAdd ''http://localhost:8000'' initial_state
                 (HttpResponse 201 ()) (HttpResponse 200 (Inr [sunset]))) = []
   \<and> error (run initial_state (handleAdd ''http://localhost:8000'' initial_state
                 (HttpResponse 201 ()) (HttpResponse 200 (Inr [sunset]))))
       = ''Title and Image URL are required''"
proof -
  have h: "title initial_state = [] \<or> imageUrl initial_state = []"
    by (simp add: initial_state_def)
  from handleAdd_validation [OF h, of "''http://localhost:8000''" "HttpResponse 201 ()"
      "HttpResponse 200 (Inr [sunset])"] h
  show ?thesis by simp
qed




end
